theory Spec2Isabelle
  imports Main
begin

section \<open>The agent workflow of example 3\<close>

text \<open>
  The third example of the repository wires three model-backed nodes (orchestrator,
  analyzer, responder) into a state graph with one conditional branch. The nodes, the
  routing function, the wiring of the graph and \<open>run_query\<close> are translated from
  \<^verbatim>\<open>example_3_agent_langgraph.py\<close>. The calls to \<^verbatim>\<open>print\<close> only report progress
  and are left out.
\<close>

subsection \<open>Python strings\<close>

text \<open>
  A Python \<^verbatim>\<open>str\<close> is modelled as a \<open>string\<close> whose characters are read as the code
  points U+0000 to U+00FF. On these, \<^verbatim>\<open>str.strip()\<close> removes the leading and trailing
  characters for which \<^verbatim>\<open>str.isspace\<close> holds (TAB to CR, FS to US, space, NEL and
  the no-break space), and \<^verbatim>\<open>str.lower()\<close> maps \<open>A\<close> to \<open>Z\<close> and the capital letters
  of Latin-1 (U+00C0 to U+00DE but the multiplication sign U+00D7) to the letter 32 code
  points above.
\<close>

definition py_isspace :: "char \<Rightarrow> bool" where
  "py_isspace ch =
     (let n = (of_char ch :: nat)
      in (9 \<le> n \<and> n \<le> 13) \<or> (28 \<le> n \<and> n \<le> 32) \<or> n = 133 \<or> n = 160)"

definition py_strip :: "string \<Rightarrow> string" where
  "py_strip s = rev (dropWhile py_isspace (rev (dropWhile py_isspace s)))"

definition py_lower_char :: "char \<Rightarrow> char" where
  "py_lower_char ch =
     (let n = (of_char ch :: nat)
      in if (65 \<le> n \<and> n \<le> 90) \<or> (192 \<le> n \<and> n \<le> 222 \<and> n \<noteq> 215)
         then char_of (n + 32) else ch)"

definition py_lower :: "string \<Rightarrow> string" where
  "py_lower s = map py_lower_char s"

subsection \<open>The shared state\<close>

text \<open>
  \<^verbatim>\<open>AgentState\<close> is a \<^verbatim>\<open>TypedDict\<close> with five string fields. A value of the record is
  a well-formed state: all five keys are present.
\<close>

record AgentState =
  user_query :: string
  query_type :: string
  analysis :: string
  final_response :: string
  next_step :: string

subsection \<open>The model client\<close>

text \<open>
  \<^verbatim>\<open>llm.invoke(prompt).content\<close> is a call to a service outside the repository. The
  client is a parameter of the model: a function from its own hidden state (all that the
  reply may depend on besides the prompt: sampling, the service, earlier calls) and the
  prompt to a reply and the next hidden state. The call either gives the text of the
  reply or fails; the nodes have no handler, so a failure leaves the node at once.
\<close>

text \<open>
  Modelled from the spec: the failures of the model client, whose library is not among
  the source files; section 6 names three.
\<close>

datatype model_error = ModelUnavailable | ModelTimeout | ModelError

type_synonym 'c model_client = "'c \<Rightarrow> string \<Rightarrow> (model_error + string) \<times> 'c"

type_synonym 'c node = "AgentState \<Rightarrow> 'c \<Rightarrow> (model_error + AgentState) \<times> 'c"

subsection \<open>The three nodes\<close>

definition classification_prompt :: "string \<Rightarrow> string" where
  "classification_prompt query =
     ''Classify this user query into one of these categories:\<newline>'' @
     ''- 'technical' if it's about programming, code, or technical concepts\<newline>'' @
     ''- 'greeting' if it's a greeting or casual conversation\<newline>'' @
     ''- 'general' for everything else\<newline>'' @
     ''\<newline>'' @
     ''Query: '' @ query @ ''\<newline>'' @
     ''\<newline>'' @
     ''Respond with ONLY ONE WORD: technical, greeting, or general''"

definition orchestrator_node :: "'c model_client \<Rightarrow> 'c node" where
  "orchestrator_node llm state c =
     (let query = user_query state in
      case llm c (classification_prompt query) of
        (Inl e, c') \<Rightarrow> (Inl e, c')
      | (Inr content, c') \<Rightarrow>
          let reply = py_lower (py_strip content);
              qt = (if reply \<notin> set [''technical'', ''greeting'', ''general'']
                    then ''general'' else reply);
              ns = (if qt = ''technical'' then ''analyzer'' else ''responder'')
          in (Inr (state\<lparr>query_type := qt, next_step := ns\<rparr>), c'))"

definition analysis_prompt :: "string \<Rightarrow> string" where
  "analysis_prompt query =
     ''You are a technical analyst. Analyze this query and provide:\<newline>'' @
     ''1. Key concepts involved\<newline>'' @
     ''2. Difficulty level (beginner/intermediate/advanced)\<newline>'' @
     ''3. A brief technical breakdown\<newline>'' @
     ''\<newline>'' @
     ''Query: '' @ query @ ''\<newline>'' @
     ''\<newline>'' @
     ''Keep your analysis concise (2-3 sentences).''"

definition analyzer_node :: "'c model_client \<Rightarrow> 'c node" where
  "analyzer_node llm state c =
     (let query = user_query state in
      case llm c (analysis_prompt query) of
        (Inl e, c') \<Rightarrow> (Inl e, c')
      | (Inr content, c') \<Rightarrow>
          (Inr (state\<lparr>analysis := py_strip content, next_step := ''responder''\<rparr>), c'))"

text \<open>
  The responder reads \<^verbatim>\<open>query_type\<close> too, and does not use it. The test
  \<^verbatim>\<open>if analysis:\<close> is true of every string but the empty one.
\<close>

definition response_prompt :: "string \<Rightarrow> string \<Rightarrow> string" where
  "response_prompt an query =
     (if an \<noteq> []
      then ''Based on this analysis:\<newline>'' @
           an @ ''\<newline>'' @
           ''\<newline>'' @
           ''Provide a clear, helpful response to the user's query: '' @ query @ ''\<newline>'' @
           ''\<newline>'' @
           ''Keep your response concise and practical.''
      else ''Provide a helpful response to this query: '' @ query @ ''\<newline>'' @
           ''\<newline>'' @
           ''Keep your response friendly and concise.'')"

definition responder_node :: "'c model_client \<Rightarrow> 'c node" where
  "responder_node llm state c =
     (let query = user_query state;
          an = analysis state
      in case llm c (response_prompt an query) of
           (Inl e, c') \<Rightarrow> (Inl e, c')
         | (Inr content, c') \<Rightarrow>
             (Inr (state\<lparr>final_response := py_strip content, next_step := ''end''\<rparr>), c'))"

definition route_after_orchestrator :: "AgentState \<Rightarrow> string" where
  "route_after_orchestrator state = next_step state"

subsection \<open>The graph and its execution engine\<close>

text \<open>
  The source file imports \<^verbatim>\<open>StateGraph\<close> and \<^verbatim>\<open>END\<close> from a graph library and calls
  \<^verbatim>\<open>add_node\<close>, \<^verbatim>\<open>set_entry_point\<close>, \<^verbatim>\<open>add_conditional_edges\<close>, \<^verbatim>\<open>add_edge\<close>,
  \<^verbatim>\<open>compile\<close> and \<^verbatim>\<open>invoke\<close>; the library is not among the source files. Each
  definition of this subsection is written from sections 3, 4.4, 6 and 7 of the
  specification, under the names the source calls.
\<close>

text \<open>
  Modelled from the spec: the terminal marker \<^verbatim>\<open>END\<close> of the absent graph library, the
  reserved target \<open>end\<close> of section 3.
\<close>

definition END :: string where
  "END = ''end''"

text \<open>
  Modelled from the spec: the edge of the absent graph library (section 3), either
  unconditional with its target or conditional with a routing function and a mapping
  from labels to targets.
\<close>

datatype edge =
    Unconditional string
  | Conditional "AgentState \<Rightarrow> string" "(string \<times> string) list"

text \<open>
  Modelled from the spec: the errors of the absent graph library (section 7). A
  validation error lists the offending names; a failure of the model client in a node
  aborts the run.
\<close>

datatype run_error =
    GraphValidationError "string list"
  | ModelFailure model_error
  | UnknownRoutingLabel string
  | StepLimitExceeded

text \<open>
  Modelled from the spec: the builder of the absent graph library (section 6), which
  collects the registered nodes, the entry and the edges in the order of the calls.
\<close>

record 'c state_graph =
  sg_nodes :: "(string \<times> 'c node) list"
  sg_entry :: "string option"
  sg_edges :: "(string \<times> edge) list"

text \<open>
  Modelled from the spec: the compiled graph of the absent graph library (section 3): an
  entry, the nodes and the one outgoing edge of each by name, and the configured step
  limit of section 4.4.
\<close>

record 'c compiled_graph =
  entry :: string
  nodes :: "(string \<times> 'c node) list"
  edges :: "(string \<times> edge) list"
  step_limit :: nat

text \<open>
  Modelled from the spec: the constructor \<^verbatim>\<open>StateGraph(AgentState)\<close> of the absent graph
  library, a builder with nothing registered.
\<close>

definition StateGraph :: "'c state_graph" where
  "StateGraph = \<lparr>sg_nodes = [], sg_entry = None, sg_edges = []\<rparr>"

text \<open>
  Modelled from the spec: \<^verbatim>\<open>add_node\<close> of the absent graph library, the
  \<open>registerNode\<close> of section 6.
\<close>

definition add_node :: "string \<Rightarrow> 'c node \<Rightarrow> 'c state_graph \<Rightarrow> 'c state_graph" where
  "add_node name f sg = sg\<lparr>sg_nodes := sg_nodes sg @ [(name, f)]\<rparr>"

text \<open>
  Modelled from the spec: \<^verbatim>\<open>set_entry_point\<close> of the absent graph library, the
  \<open>setEntry\<close> of section 6.
\<close>

definition set_entry_point :: "string \<Rightarrow> 'c state_graph \<Rightarrow> 'c state_graph" where
  "set_entry_point name sg = sg\<lparr>sg_entry := Some name\<rparr>"

text \<open>
  Modelled from the spec: \<^verbatim>\<open>add_conditional_edges\<close> of the absent graph library, the
  \<open>addConditionalEdge\<close> of section 6.
\<close>

definition add_conditional_edges ::
  "string \<Rightarrow> (AgentState \<Rightarrow> string) \<Rightarrow> (string \<times> string) list \<Rightarrow> 'c state_graph \<Rightarrow> 'c state_graph"
where
  "add_conditional_edges source decide labels sg =
     sg\<lparr>sg_edges := sg_edges sg @ [(source, Conditional decide labels)]\<rparr>"

text \<open>
  Modelled from the spec: \<^verbatim>\<open>add_edge\<close> of the absent graph library, the \<open>addEdge\<close> of
  section 6.
\<close>

definition add_edge :: "string \<Rightarrow> string \<Rightarrow> 'c state_graph \<Rightarrow> 'c state_graph" where
  "add_edge source target sg = sg\<lparr>sg_edges := sg_edges sg @ [(source, Unconditional target)]\<rparr>"

text \<open>
  Modelled from the spec: the targets an edge of the absent graph library can lead to
  (section 3): the one of an unconditional edge, those of the labels of a conditional one.
\<close>

definition targets :: "edge \<Rightarrow> string list" where
  "targets e = (case e of Unconditional t \<Rightarrow> [t] | Conditional decide labels \<Rightarrow> map snd labels)"

text \<open>
  Modelled from the spec: the targets of a node's outgoing edge, for the validation of
  the absent \<^verbatim>\<open>compile\<close>; none when the node has no edge.
\<close>

definition successors :: "(string \<times> edge) list \<Rightarrow> string \<Rightarrow> string list" where
  "successors es n = (case map_of es n of None \<Rightarrow> [] | Some e \<Rightarrow> targets e)"

text \<open>
  Modelled from the spec: the names reached from \<open>xs\<close> along at most \<open>k\<close> edges, for the
  validation of the absent \<^verbatim>\<open>compile\<close> (the terminal exit of section 6).
\<close>

fun reach :: "(string \<times> edge) list \<Rightarrow> nat \<Rightarrow> string list \<Rightarrow> string list" where
  "reach es 0 xs = xs"
| "reach es (Suc k) xs = reach es k (remdups (xs @ concat (map (successors es) xs)))"

text \<open>
  Modelled from the spec: the validation of the absent \<^verbatim>\<open>compile\<close> (the invariants of
  section 3, the violations of section 6), as the list of the offending names: a missing
  entry (none set, or one that is not a registered node), a duplicate node name, an edge
  from a name that is not a registered node or a second outgoing edge of a node, a
  dangling label (a target that is neither a registered node nor the terminal marker),
  and a node from which no path of edges leads to the terminal marker (it has no outgoing
  edge, or it lies on or leads to a cycle without terminal exit).
\<close>

definition violations :: "'c state_graph \<Rightarrow> string list" where
  "violations sg =
     (let names = map fst (sg_nodes sg);
          sources = map fst (sg_edges sg)
      in (case sg_entry sg of
            None \<Rightarrow> [''missing entry'']
          | Some e \<Rightarrow> if e \<in> set names then [] else [e]) @
         filter (\<lambda>n. 1 < count_list names n) names @
         filter (\<lambda>n. 1 < count_list sources n \<or> n \<notin> set names) sources @
         filter (\<lambda>t. t \<noteq> END \<and> t \<notin> set names) (concat (map (targets \<circ> snd) (sg_edges sg))) @
         filter (\<lambda>n. END \<notin> set (reach (sg_edges sg) (length names) [n])) names)"

text \<open>
  Modelled from the spec: \<^verbatim>\<open>compile\<close> of the absent graph library (section 6). It fails
  with a \<open>GraphValidationError\<close> that lists the violations, and otherwise gives the graph
  with the step limit that section 4.4 recommends, twice the number of nodes.
\<close>

definition compile :: "'c state_graph \<Rightarrow> run_error + 'c compiled_graph" where
  "compile sg =
     (case (violations sg, sg_entry sg) of
        ([], Some e) \<Rightarrow> Inr \<lparr>entry = e, nodes = sg_nodes sg, edges = sg_edges sg,
                              step_limit = 2 * length (sg_nodes sg)\<rparr>
      | (vs, _) \<Rightarrow> Inl (GraphValidationError vs))"

text \<open>
  Modelled from the spec: the routing step of the absent engine (section 4.4). The target
  of an unconditional edge is taken as it is; the label that the routing function of a
  conditional edge returns must be in the edge's mapping, and \<open>UnknownRoutingLabel\<close> is
  the error otherwise. A node without outgoing edge is a violation that \<open>compile\<close>
  rejects; on a graph that was not compiled the step reports it.
\<close>

definition next_node :: "'c compiled_graph \<Rightarrow> string \<Rightarrow> AgentState \<Rightarrow> run_error + string" where
  "next_node g current state' =
     (case map_of (edges g) current of
        None \<Rightarrow> Inl (GraphValidationError [current])
      | Some (Unconditional target) \<Rightarrow> Inr target
      | Some (Conditional decide labels) \<Rightarrow>
          (case map_of labels (decide state') of
             None \<Rightarrow> Inl (UnknownRoutingLabel (decide state'))
           | Some target \<Rightarrow> Inr target))"

text \<open>
  Modelled from the spec: the loop of the absent engine (section 4.4), with the step
  limit as the number of node invocations that are left. One round invokes the current
  node; a failure of the model client in the node aborts the run; a state whose
  \<open>next_step\<close> is the terminal marker is returned, and so is the state when the edge
  leads to the terminal marker; otherwise the loop goes on at the target. With no
  invocation left the run fails with \<open>StepLimitExceeded\<close>. A current name that is no
  registered node is a violation that \<open>compile\<close> rejects; on a graph that was not
  compiled the loop reports it. Beside the result, the loop returns the names of the
  nodes it invoked, in order, and the hidden state of the model client.
\<close>

fun run_loop ::
  "'c compiled_graph \<Rightarrow> nat \<Rightarrow> string \<Rightarrow> AgentState \<Rightarrow> 'c \<Rightarrow> (run_error + AgentState) \<times> string list \<times> 'c"
where
  "run_loop g 0 current state c = (Inl StepLimitExceeded, [], c)"
| "run_loop g (Suc n) current state c =
     (case map_of (nodes g) current of
        None \<Rightarrow> (Inl (GraphValidationError [current]), [], c)
      | Some apply_node \<Rightarrow>
          (case apply_node state c of
             (Inl e, c') \<Rightarrow> (Inl (ModelFailure e), [current], c')
           | (Inr state', c') \<Rightarrow>
               if next_step state' = END then (Inr state', [current], c')
               else (case next_node g current state' of
                       Inl err \<Rightarrow> (Inl err, [current], c')
                     | Inr target \<Rightarrow>
                         if target = END then (Inr state', [current], c')
                         else (case run_loop g n target state' c' of
                                 (r, visited, c'') \<Rightarrow> (r, current # visited, c'')))))"

text \<open>
  Modelled from the spec: \<^verbatim>\<open>graph.invoke\<close> of the absent graph library, the \<open>run\<close> of
  section 4.4: the loop from the entry node under the graph's step limit.
\<close>

definition run :: "'c compiled_graph \<Rightarrow> AgentState \<Rightarrow> 'c \<Rightarrow> (run_error + AgentState) \<times> string list \<times> 'c" where
  "run g initial_state c = run_loop g (step_limit g) (entry g) initial_state c"

subsection \<open>The reference workflow\<close>

text \<open>
  \<open>create_agent_graph\<close> and \<open>run_query\<close> are the source's. The nodes of the source close
  over the global \<^verbatim>\<open>llm\<close>; here the client is their first argument.
\<close>

definition create_agent_graph :: "'c model_client \<Rightarrow> run_error + 'c compiled_graph" where
  "create_agent_graph llm =
     (let workflow = StateGraph;
          workflow = add_node ''orchestrator'' (orchestrator_node llm) workflow;
          workflow = add_node ''analyzer'' (analyzer_node llm) workflow;
          workflow = add_node ''responder'' (responder_node llm) workflow;
          workflow = set_entry_point ''orchestrator'' workflow;
          workflow = add_conditional_edges ''orchestrator'' route_after_orchestrator
                       [(''analyzer'', ''analyzer''), (''responder'', ''responder'')] workflow;
          workflow = add_edge ''analyzer'' ''responder'' workflow;
          workflow = add_edge ''responder'' END workflow
      in compile workflow)"

definition run_query ::
  "'c compiled_graph \<Rightarrow> string \<Rightarrow> 'c \<Rightarrow> (run_error + AgentState) \<times> string list \<times> 'c"
where
  "run_query graph query c =
     (let initial_state = \<lparr>user_query = query, query_type = [], analysis = [],
                            final_response = [], next_step = []\<rparr>
      in run graph initial_state c)"

subsection \<open>Stub clients\<close>

text \<open>
  Three test doubles for the model client: one that answers each prompt by a fixed
  function of the prompt (its hidden state moves on as \<open>tick\<close> says), one that plays a
  script of replies in order and fails when the script is over, and one that records the
  prompts it is sent, around any client.
\<close>

definition fixed_client :: "(string \<Rightarrow> model_error + string) \<Rightarrow> ('c \<Rightarrow> string \<Rightarrow> 'c) \<Rightarrow> 'c model_client" where
  "fixed_client reply tick c prompt = (reply prompt, tick c prompt)"

fun scripted_client :: "string list model_client" where
  "scripted_client [] prompt = (Inl ModelError, [])"
| "scripted_client (r # rs) prompt = (Inr r, rs)"

definition recording :: "'c model_client \<Rightarrow> ('c \<times> string list) model_client" where
  "recording llm = (\<lambda>(c, sent) prompt. case llm c prompt of (r, c') \<Rightarrow> (r, (c', sent @ [prompt])))"

section \<open>Properties\<close>

subsection \<open>The step limit of the engine\<close>

text \<open>
  The loop invokes at most as many nodes as its limit allows; it fails with
  \<open>StepLimitExceeded\<close> only after that many invocations; and a run that ends otherwise
  is the same under every larger limit.
\<close>

lemma run_loop_length:
  "run_loop g n current s c = (r, visited, c') \<Longrightarrow> length visited \<le> n"
proof (induction n arbitrary: current s c r visited c')
  case 0
  then show ?case by simp
next
  case (Suc n)
  from Suc.prems show ?case
    by (auto split: option.splits prod.splits sum.splits if_splits dest: Suc.IH)
qed

lemma run_loop_limit_hit:
  "run_loop g n current s c = (Inl StepLimitExceeded, visited, c') \<Longrightarrow> length visited = n"
proof (induction n arbitrary: current s c visited c')
  case 0
  then show ?case by simp
next
  case (Suc n)
  from Suc.prems show ?case
    by (auto simp: next_node_def
        split: option.splits prod.splits sum.splits if_splits edge.splits dest: Suc.IH)
qed

lemma run_loop_more_fuel:
  "run_loop g n current s c = (r, visited, c') \<Longrightarrow> r \<noteq> Inl StepLimitExceeded \<Longrightarrow>
   run_loop g (n + k) current s c = (r, visited, c')"
proof (induction n arbitrary: current s c r visited c')
  case 0
  then show ?case by simp
next
  case (Suc n)
  from Suc.prems show ?case
    by (auto split: option.splits prod.splits sum.splits if_splits dest: Suc.IH)
qed

subsection \<open>The compiled reference workflow\<close>

text \<open>
  The builder calls of \<open>create_agent_graph\<close> violate no invariant, so \<open>compile\<close> succeeds
  with three nodes, three edges and a step limit of six. A run of this graph unfolds into
  at most three node invocations.
\<close>

lemma workflow_violations:
  "violations \<lparr>sg_nodes = [(''orchestrator'', orchestrator_node llm), (''analyzer'', analyzer_node llm),
               (''responder'', responder_node llm)],
      sg_entry = Some ''orchestrator'',
      sg_edges = [(''orchestrator'', Conditional route_after_orchestrator
                  [(''analyzer'', ''analyzer''), (''responder'', ''responder'')]),
               (''analyzer'', Unconditional ''responder''),
               (''responder'', Unconditional END)]\<rparr> = []"
  by code_simp

lemma create_agent_graph_eq:
  "create_agent_graph llm = Inr
     \<lparr>entry = ''orchestrator'',
      nodes = [(''orchestrator'', orchestrator_node llm), (''analyzer'', analyzer_node llm),
               (''responder'', responder_node llm)],
      edges = [(''orchestrator'', Conditional route_after_orchestrator
                  [(''analyzer'', ''analyzer''), (''responder'', ''responder'')]),
               (''analyzer'', Unconditional ''responder''),
               (''responder'', Unconditional END)],
      step_limit = 6\<rparr>"
  by (simp add: create_agent_graph_def compile_def StateGraph_def add_node_def
      set_entry_point_def add_conditional_edges_def add_edge_def workflow_violations)

lemma graph_fields:
  assumes "create_agent_graph llm = Inr g"
  shows "entry g = ''orchestrator''" and "step_limit g = 6"
    and "map_of (nodes g) ''orchestrator'' = Some (orchestrator_node llm)"
    and "map_of (nodes g) ''analyzer'' = Some (analyzer_node llm)"
    and "map_of (nodes g) ''responder'' = Some (responder_node llm)"
    and "map_of (edges g) ''orchestrator'' = Some (Conditional route_after_orchestrator
                  [(''analyzer'', ''analyzer''), (''responder'', ''responder'')])"
    and "map_of (edges g) ''analyzer'' = Some (Unconditional ''responder'')"
    and "map_of (edges g) ''responder'' = Some (Unconditional END)"
  using assms unfolding create_agent_graph_eq by auto

lemma orchestrator_next_step:
  assumes "orchestrator_node llm s c = (Inr s1, c1)"
  shows "next_step s1 = (if query_type s1 = ''technical'' then ''analyzer'' else ''responder'')"
  using assms by (auto simp: orchestrator_node_def Let_def split: prod.splits sum.splits if_splits)

lemma analyzer_next_step:
  assumes "analyzer_node llm s c = (Inr s2, c2)"
  shows "next_step s2 = ''responder''"
  using assms by (auto simp: analyzer_node_def Let_def split: prod.splits sum.splits)

lemma responder_next_step:
  assumes "responder_node llm s c = (Inr s3, c3)"
  shows "next_step s3 = END"
  using assms by (auto simp: responder_node_def END_def Let_def split: prod.splits sum.splits)

lemma responder_round:
  assumes "create_agent_graph llm = Inr g"
  shows "run_loop g (Suc n) ''responder'' s c =
     (case responder_node llm s c of
        (Inl e, c3) \<Rightarrow> (Inl (ModelFailure e), [''responder''], c3)
      | (Inr s3, c3) \<Rightarrow> (Inr s3, [''responder''], c3))"
  by (simp add: graph_fields [OF assms] responder_next_step split: prod.splits sum.splits)

lemma analyzer_round:
  assumes "create_agent_graph llm = Inr g"
  shows "run_loop g (Suc n) ''analyzer'' s c =
     (case analyzer_node llm s c of
        (Inl e, c2) \<Rightarrow> (Inl (ModelFailure e), [''analyzer''], c2)
      | (Inr s2, c2) \<Rightarrow>
          (case run_loop g n ''responder'' s2 c2 of
             (r, visited, c3) \<Rightarrow> (r, ''analyzer'' # visited, c3)))"
  by (simp add: graph_fields [OF assms] analyzer_next_step next_node_def END_def
      split: prod.splits sum.splits)

lemma orchestrator_round:
  assumes "create_agent_graph llm = Inr g"
  shows "run_loop g (Suc n) ''orchestrator'' s c =
     (case orchestrator_node llm s c of
        (Inl e, c1) \<Rightarrow> (Inl (ModelFailure e), [''orchestrator''], c1)
      | (Inr s1, c1) \<Rightarrow>
          (case run_loop g n (if query_type s1 = ''technical'' then ''analyzer'' else ''responder'') s1 c1 of
             (r, visited, c3) \<Rightarrow> (r, ''orchestrator'' # visited, c3)))"
  by (simp add: graph_fields [OF assms] orchestrator_next_step next_node_def END_def
      route_after_orchestrator_def split: prod.splits sum.splits)

lemma run_reference:
  assumes "create_agent_graph llm = Inr g"
  shows "run g s c =
     (case orchestrator_node llm s c of
        (Inl e, c1) \<Rightarrow> (Inl (ModelFailure e), [''orchestrator''], c1)
      | (Inr s1, c1) \<Rightarrow>
          if query_type s1 = ''technical''
          then (case analyzer_node llm s1 c1 of
                  (Inl e, c2) \<Rightarrow> (Inl (ModelFailure e), [''orchestrator'', ''analyzer''], c2)
                | (Inr s2, c2) \<Rightarrow>
                    (case responder_node llm s2 c2 of
                       (Inl e, c3) \<Rightarrow> (Inl (ModelFailure e), [''orchestrator'', ''analyzer'', ''responder''], c3)
                     | (Inr s3, c3) \<Rightarrow> (Inr s3, [''orchestrator'', ''analyzer'', ''responder''], c3)))
          else (case responder_node llm s1 c1 of
                  (Inl e, c3) \<Rightarrow> (Inl (ModelFailure e), [''orchestrator'', ''responder''], c3)
                | (Inr s3, c3) \<Rightarrow> (Inr s3, [''orchestrator'', ''responder''], c3)))"
  by (simp add: run_def graph_fields(1,2) [OF assms] eval_nat_numeral
      orchestrator_round [OF assms] analyzer_round [OF assms] responder_round [OF assms]
      del: run_loop.simps split: prod.splits sum.splits)

subsection \<open>Replies of the stub clients\<close>

text \<open>The replies used in the examples are left as they are by \<open>strip\<close> and \<open>lower\<close>.\<close>

lemma strip_technical: "py_lower (py_strip ''technical'') = ''technical''" by code_simp
lemma strip_greeting: "py_lower (py_strip ''greeting'') = ''greeting''" by code_simp
lemma strip_maybe: "py_lower (py_strip ''maybe'') = ''maybe''" by code_simp
lemma strip_ANALYSIS: "py_strip ''ANALYSIS'' = ''ANALYSIS''" by code_simp
lemma strip_RESPONSE: "py_strip ''RESPONSE'' = ''RESPONSE''" by code_simp

subsection \<open>Fields that later nodes keep\<close>

lemma node_keeps_query_type:
  "analyzer_node llm s c = (Inr s2, c2) \<Longrightarrow> query_type s2 = query_type s"
  "responder_node llm s c = (Inr s3, c3) \<Longrightarrow> query_type s3 = query_type s"
  by (auto simp: analyzer_node_def responder_node_def Let_def split: prod.splits sum.splits)

lemma node_keeps_analysis:
  "orchestrator_node llm s c = (Inr s1, c1) \<Longrightarrow> analysis s1 = analysis s"
  "responder_node llm s c = (Inr s3, c3) \<Longrightarrow> analysis s3 = analysis s"
  by (auto simp: orchestrator_node_def responder_node_def Let_def split: prod.splits sum.splits)

subsection \<open>Two example runs\<close>

text \<open>
  The technical query and the greeting of the source's \<open>main\<close>, each against a client
  that plays a script.
\<close>

lemma technical_example:
  assumes "create_agent_graph scripted_client = Inr g"
  shows "run_query g ''Explain async/await'' [''technical'', ''ANALYSIS'', ''RESPONSE''] =
     (Inr \<lparr>user_query = ''Explain async/await'', query_type = ''technical'',
           analysis = ''ANALYSIS'', final_response = ''RESPONSE'', next_step = ''end''\<rparr>,
      [''orchestrator'', ''analyzer'', ''responder''], [])"
  by (simp add: run_query_def run_reference [OF assms] orchestrator_node_def analyzer_node_def
      responder_node_def strip_technical strip_ANALYSIS strip_RESPONSE)

lemma greeting_example:
  assumes "create_agent_graph scripted_client = Inr g"
  shows "run_query g ''Hello! How are you today?'' [''greeting'', ''RESPONSE''] =
     (Inr \<lparr>user_query = ''Hello! How are you today?'', query_type = ''greeting'',
           analysis = [], final_response = ''RESPONSE'', next_step = ''end''\<rparr>,
      [''orchestrator'', ''responder''], [])"
  by (simp add: run_query_def run_reference [OF assms] orchestrator_node_def
      responder_node_def strip_greeting strip_RESPONSE)

lemma create_agent_graph_compile:
  "\<exists>sg. create_agent_graph llm = compile sg"
  unfolding create_agent_graph_def Let_def by (rule exI) (rule refl)

section \<open>The claims\<close>

subsection \<open>Routing\<close>




text \<open>
  Claim C2 (fallback classification). When the reply to the classification prompt,
  stripped and in lower case, is none of \<open>technical\<close>, \<open>greeting\<close> and \<open>general\<close>, the
  orchestrator returns a state (it raises nothing) with \<open>query_type\<close> set to \<open>general\<close>
  and routes to the responder; the run then invokes orchestrator and responder and never
  the analyzer.
\<close>

theorem classification_fallback:
  assumes "llm c (classification_prompt (user_query s)) = (Inr content, c1)"
      and "py_lower (py_strip content) \<notin> {''technical'', ''greeting'', ''general''}"
  shows "orchestrator_node llm s c =
           (Inr (s\<lparr>query_type := ''general'', next_step := ''responder''\<rparr>), c1) \<and>
         (\<exists>g. create_agent_graph llm = Inr g \<and>
              fst (snd (run g s c)) = [''orchestrator'', ''responder''] \<and>
              ''analyzer'' \<notin> set (fst (snd (run g s c))))"
proof -
  have node: "orchestrator_node llm s c =
      (Inr (s\<lparr>query_type := ''general'', next_step := ''responder''\<rparr>), c1)"
    using assms by (simp add: orchestrator_node_def)
  obtain g where g: "create_agent_graph llm = Inr g"
    by (simp add: create_agent_graph_eq)
  have "fst (snd (run g s c)) = [''orchestrator'', ''responder'']"
    by (simp add: run_reference [OF g] node split: prod.splits sum.splits)
  then have "fst (snd (run g s c)) = [''orchestrator'', ''responder''] \<and>
      ''analyzer'' \<notin> set (fst (snd (run g s c)))"
    by simp
  with node g show ?thesis
    by blast
qed

text \<open>
  The reply \<open>maybe\<close> of the specification's example.
\<close>

theorem classification_fallback_witness:
  "scripted_client [''maybe'', ''RESPONSE''] (classification_prompt ''Is it raining?'') =
     (Inr ''maybe'', [''RESPONSE'']) \<and>
   py_lower (py_strip ''maybe'') \<notin> {''technical'', ''greeting'', ''general''} \<and>
   orchestrator_node scripted_client
     \<lparr>user_query = ''Is it raining?'', query_type = [], analysis = [], final_response = [],
      next_step = []\<rparr> [''maybe'', ''RESPONSE''] =
     (Inr \<lparr>user_query = ''Is it raining?'', query_type = ''general'', analysis = [],
           final_response = [], next_step = ''responder''\<rparr>, [''RESPONSE'']) \<and>
   (\<exists>g. create_agent_graph scripted_client = Inr g \<and>
        fst (snd (run_query g ''Is it raining?'' [''maybe'', ''RESPONSE''])) =
          [''orchestrator'', ''responder''] \<and>
        ''analyzer'' \<notin> set (fst (snd (run_query g ''Is it raining?'' [''maybe'', ''RESPONSE'']))))"
proof -
  let ?s = "\<lparr>user_query = ''Is it raining?'', query_type = [], analysis = [],
      final_response = [], next_step = []\<rparr>"
  have h1: "scripted_client [''maybe'', ''RESPONSE''] (classification_prompt (user_query ?s)) =
      (Inr ''maybe'', [''RESPONSE''])"
    by simp
  have h2: "py_lower (py_strip ''maybe'') \<notin> {''technical'', ''greeting'', ''general''}"
    by (simp add: strip_maybe)
  from classification_fallback
    [where llm = scripted_client and s = ?s and c = "[''maybe'', ''RESPONSE'']", OF h1 h2] h1 h2
  show ?thesis
    by (simp add: run_query_def)
qed

subsection \<open>The nodes\<close>

text \<open>
  Claim C3 (state field preservation). A node that returns a state leaves alone every
  field it does not own: the orchestrator writes only \<open>query_type\<close> and \<open>next_step\<close>,
  the analyzer only \<open>analysis\<close> and \<open>next_step\<close> (so \<open>user_query\<close> is as before), the
  responder only \<open>final_response\<close> and \<open>next_step\<close>.
\<close>

theorem state_field_preservation:
  "(orchestrator_node llm s c = (Inr s1, c1) \<longrightarrow>
      user_query s1 = user_query s \<and> analysis s1 = analysis s \<and>
      final_response s1 = final_response s) \<and>
   (analyzer_node llm s c = (Inr s2, c2) \<longrightarrow>
      user_query s2 = user_query s \<and> query_type s2 = query_type s \<and>
      final_response s2 = final_response s) \<and>
   (responder_node llm s c = (Inr s3, c3) \<longrightarrow>
      user_query s3 = user_query s \<and> query_type s3 = query_type s \<and>
      analysis s3 = analysis s)"
  by (auto simp: orchestrator_node_def analyzer_node_def responder_node_def Let_def
      split: prod.splits sum.splits)

text \<open>
  The three nodes on one state with all fields set, each with a client that replies.
\<close>

theorem state_field_preservation_witness:
  "\<exists>s1 s2 s3.
     orchestrator_node scripted_client
       \<lparr>user_query = ''Explain async/await'', query_type = ''general'', analysis = ''none'',
        final_response = ''no'', next_step = []\<rparr> [''technical''] = (Inr s1, []) \<and>
     analyzer_node scripted_client
       \<lparr>user_query = ''Explain async/await'', query_type = ''general'', analysis = ''none'',
        final_response = ''no'', next_step = []\<rparr> [''ANALYSIS''] = (Inr s2, []) \<and>
     responder_node scripted_client
       \<lparr>user_query = ''Explain async/await'', query_type = ''general'', analysis = ''none'',
        final_response = ''no'', next_step = []\<rparr> [''RESPONSE''] = (Inr s3, []) \<and>
     user_query s1 = ''Explain async/await'' \<and> analysis s1 = ''none'' \<and>
     final_response s1 = ''no'' \<and>
     user_query s2 = ''Explain async/await'' \<and> query_type s2 = ''general'' \<and>
     final_response s2 = ''no'' \<and>
     user_query s3 = ''Explain async/await'' \<and> query_type s3 = ''general'' \<and>
     analysis s3 = ''none''"
proof -
  let ?s = "\<lparr>user_query = ''Explain async/await'', query_type = ''general'', analysis = ''none'',
        final_response = ''no'', next_step = []\<rparr>"
  let ?s1 = "?s\<lparr>query_type := ''technical'', next_step := ''analyzer''\<rparr>"
  let ?s2 = "?s\<lparr>analysis := ''ANALYSIS'', next_step := ''responder''\<rparr>"
  let ?s3 = "?s\<lparr>final_response := ''RESPONSE'', next_step := ''end''\<rparr>"
  have h1: "orchestrator_node scripted_client ?s [''technical''] = (Inr ?s1, [])"
    by (simp add: orchestrator_node_def strip_technical)
  have h2: "analyzer_node scripted_client ?s [''ANALYSIS''] = (Inr ?s2, [])"
    by (simp add: analyzer_node_def strip_ANALYSIS)
  have h3: "responder_node scripted_client ?s [''RESPONSE''] = (Inr ?s3, [])"
    by (simp add: responder_node_def strip_RESPONSE)
  note frame = state_field_preservation [where llm = scripted_client and s = ?s]
  from frame [where c = "[''technical'']" and ?s1.0 = ?s1 and ?c1.0 = "[]"] h1
  have f1: "user_query ?s1 = user_query ?s \<and> analysis ?s1 = analysis ?s \<and>
      final_response ?s1 = final_response ?s"
    by blast
  from frame [where c = "[''ANALYSIS'']" and ?s2.0 = ?s2 and ?c2.0 = "[]"] h2
  have f2: "user_query ?s2 = user_query ?s \<and> query_type ?s2 = query_type ?s \<and>
      final_response ?s2 = final_response ?s"
    by blast
  from frame [where c = "[''RESPONSE'']" and ?s3.0 = ?s3 and ?c3.0 = "[]"] h3
  have f3: "user_query ?s3 = user_query ?s \<and> query_type ?s3 = query_type ?s \<and>
      analysis ?s3 = analysis ?s"
    by blast
  from h1 h2 h3 f1 f2 f3 show ?thesis
    by simp
qed

subsection \<open>Termination\<close>

text \<open>
  Claim C4 (step limit). A run of any graph invokes at most \<open>step_limit\<close> nodes. It
  fails with \<open>StepLimitExceeded\<close> only when it has made that many invocations, and a run
  that ends otherwise within the limit is not changed by it. The limit that \<open>compile\<close>
  configures is twice the number of nodes.
\<close>

theorem step_limit_enforced:
  "length (fst (snd (run g s c))) \<le> step_limit g \<and>
   (fst (run g s c) = Inl StepLimitExceeded \<longrightarrow>
      length (fst (snd (run g s c))) = step_limit g) \<and>
   (\<forall>n r visited c'.
      run_loop g n (entry g) s c = (r, visited, c') \<and> r \<noteq> Inl StepLimitExceeded \<and>
      n \<le> step_limit g \<longrightarrow> run g s c = (r, visited, c')) \<and>
   (\<forall>sg g'. compile sg = Inr g' \<longrightarrow> step_limit g' = 2 * length (nodes g'))"
proof -
  obtain r visited c' where run: "run g s c = (r, visited, c')"
    by (cases "run g s c") auto
  then have loop: "run_loop g (step_limit g) (entry g) s c = (r, visited, c')"
    by (simp add: run_def)
  have a: "length (fst (snd (run g s c))) \<le> step_limit g"
    using run_loop_length [OF loop] run by simp
  have b: "length (fst (snd (run g s c))) = step_limit g"
    if "fst (run g s c) = Inl StepLimitExceeded"
    using that run run_loop_limit_hit [of g "step_limit g" "entry g" s c visited c'] loop
    by simp
  have c: "run g s c = (r', visited', c'')"
    if "run_loop g n (entry g) s c = (r', visited', c'')" and "r' \<noteq> Inl StepLimitExceeded"
      and "n \<le> step_limit g" for n r' visited' c''
    using run_loop_more_fuel [OF that(1,2), of "step_limit g - n"] that(3)
    by (simp add: run_def)
  have d: "step_limit g' = 2 * length (nodes g')" if "compile sg = Inr g'"
    for sg :: "'b state_graph" and g'
    using that
    by (auto simp: compile_def split: list.splits option.splits)
  from a b c d show ?thesis
    by blast
qed

text \<open>
  A graph whose only node loops back to itself is cut after its two invocations; the
  reference workflow has limit six and needs three.
\<close>

theorem step_limit_enforced_witness:
  "run \<lparr>entry = ''spin'', nodes = [(''spin'', \<lambda>s c. (Inr s, c))],
        edges = [(''spin'', Unconditional ''spin'')], step_limit = 2\<rparr>
     \<lparr>user_query = ''Explain async/await'', query_type = [], analysis = [],
      final_response = [], next_step = []\<rparr> () =
     (Inl StepLimitExceeded, [''spin'', ''spin''], ()) \<and>
   (\<exists>g. create_agent_graph scripted_client = Inr g \<and> step_limit g = 6 \<and> length (nodes g) = 3 \<and>
        run_loop g 3 (entry g)
          \<lparr>user_query = ''Explain async/await'', query_type = [], analysis = [],
           final_response = [], next_step = []\<rparr> [''technical'', ''ANALYSIS'', ''RESPONSE''] =
        run g
          \<lparr>user_query = ''Explain async/await'', query_type = [], analysis = [],
           final_response = [], next_step = []\<rparr> [''technical'', ''ANALYSIS'', ''RESPONSE''] \<and>
        length (fst (snd (run_query g ''Explain async/await''
          [''technical'', ''ANALYSIS'', ''RESPONSE'']))) = 3)"
proof -
  let ?spin = "\<lparr>entry = ''spin'', nodes = [(''spin'', \<lambda>s c. (Inr s, c))],
        edges = [(''spin'', Unconditional ''spin'')], step_limit = 2\<rparr> :: unit compiled_graph"
  let ?s = "\<lparr>user_query = ''Explain async/await'', query_type = [], analysis = [],
      final_response = [], next_step = []\<rparr>"
  let ?script = "[''technical'', ''ANALYSIS'', ''RESPONSE'']"
  let ?final = "\<lparr>user_query = ''Explain async/await'', query_type = ''technical'',
      analysis = ''ANALYSIS'', final_response = ''RESPONSE'', next_step = ''end''\<rparr>"
  have spin: "run ?spin ?s () = (Inl StepLimitExceeded, [''spin'', ''spin''], ())"
    by (simp add: run_def next_node_def END_def eval_nat_numeral)
  then have hit: "fst (run ?spin ?s ()) = Inl StepLimitExceeded"
    by simp
  from step_limit_enforced [of ?spin ?s "()"] hit
  have used: "length (fst (snd (run ?spin ?s ()))) = step_limit ?spin"
    by blast
  obtain g where g: "create_agent_graph scripted_client = Inr g"
    by (simp add: create_agent_graph_eq)
  obtain sg where sg: "compile sg = Inr g"
    using create_agent_graph_compile [of scripted_client] g by auto
  note r = technical_example [OF g, unfolded run_query_def Let_def]
  have three: "run_loop g 3 (entry g) ?s ?script =
      (Inr ?final, [''orchestrator'', ''analyzer'', ''responder''], []) \<and>
      Inr ?final \<noteq> (Inl StepLimitExceeded :: run_error + AgentState) \<and> 3 \<le> step_limit g"
    by (simp add: graph_fields(1,2) [OF g] eval_nat_numeral orchestrator_round [OF g]
        analyzer_round [OF g] responder_round [OF g] orchestrator_node_def analyzer_node_def
        responder_node_def strip_technical strip_ANALYSIS strip_RESPONSE del: run_loop.simps)
  note limit = step_limit_enforced [of g ?s ?script]
  from limit sg have lim: "step_limit g = 2 * length (nodes g)"
    by blast
  from limit three
  have same: "run g ?s ?script = (Inr ?final, [''orchestrator'', ''analyzer'', ''responder''], [])"
    by blast
  from spin used g lim graph_fields(2) [OF g] three same r show ?thesis
    by (simp add: run_query_def del: run_loop.simps)
qed

subsection \<open>The responder\<close>

text \<open>
  Claim C5 (the responder ends the run). When the model client replies, the responder
  stores the stripped reply in \<open>final_response\<close> and sets \<open>next_step\<close> to \<open>end\<close>. Its
  edge in the reference workflow leads to the terminal marker, and a run that is at the
  responder invokes it and returns its state.
\<close>

theorem responder_terminal:
  assumes "llm c (response_prompt (analysis s) (user_query s)) = (Inr content, c')"
  shows "responder_node llm s c =
           (Inr (s\<lparr>final_response := py_strip content, next_step := ''end''\<rparr>), c') \<and>
         (\<exists>g. create_agent_graph llm = Inr g \<and>
              map_of (edges g) ''responder'' = Some (Unconditional END) \<and>
              (\<forall>n. run_loop g (Suc n) ''responder'' s c =
                     (Inr (s\<lparr>final_response := py_strip content, next_step := ''end''\<rparr>),
                      [''responder''], c')))"
proof -
  have node: "responder_node llm s c =
      (Inr (s\<lparr>final_response := py_strip content, next_step := ''end''\<rparr>), c')"
    using assms by (simp add: responder_node_def)
  obtain g where g: "create_agent_graph llm = Inr g"
    by (simp add: create_agent_graph_eq)
  have "run_loop g (Suc n) ''responder'' s c =
      (Inr (s\<lparr>final_response := py_strip content, next_step := ''end''\<rparr>), [''responder''], c')"
    for n
    by (simp add: responder_round [OF g] node del: run_loop.simps)
  with node g graph_fields(8) [OF g] show ?thesis
    by blast
qed

text \<open>
  The responder on the greeting, with a client that replies \<open>RESPONSE\<close>.
\<close>

theorem responder_terminal_witness:
  "scripted_client [''RESPONSE'']
     (response_prompt [] ''Hello! How are you today?'') = (Inr ''RESPONSE'', []) \<and>
   responder_node scripted_client
     \<lparr>user_query = ''Hello! How are you today?'', query_type = ''greeting'', analysis = [],
      final_response = [], next_step = ''responder''\<rparr> [''RESPONSE''] =
     (Inr \<lparr>user_query = ''Hello! How are you today?'', query_type = ''greeting'', analysis = [],
           final_response = ''RESPONSE'', next_step = ''end''\<rparr>, []) \<and>
   (\<exists>g. create_agent_graph scripted_client = Inr g \<and>
        run_loop g 1 ''responder''
          \<lparr>user_query = ''Hello! How are you today?'', query_type = ''greeting'', analysis = [],
           final_response = [], next_step = ''responder''\<rparr> [''RESPONSE''] =
          (Inr \<lparr>user_query = ''Hello! How are you today?'', query_type = ''greeting'',
                analysis = [], final_response = ''RESPONSE'', next_step = ''end''\<rparr>,
           [''responder''], []))"
proof -
  let ?s = "\<lparr>user_query = ''Hello! How are you today?'', query_type = ''greeting'',
      analysis = [], final_response = [], next_step = ''responder''\<rparr>"
  have h: "scripted_client [''RESPONSE'']
      (response_prompt (analysis ?s) (user_query ?s)) = (Inr ''RESPONSE'', [])"
    by simp
  let ?final = "?s\<lparr>final_response := py_strip ''RESPONSE'', next_step := ''end''\<rparr>"
  from responder_terminal [where llm = scripted_client and s = ?s and c = "[''RESPONSE'']", OF h]
  obtain g where node: "responder_node scripted_client ?s [''RESPONSE''] = (Inr ?final, [])"
    and g: "create_agent_graph scripted_client = Inr g"
    and loop: "\<forall>n. run_loop g (Suc n) ''responder'' ?s [''RESPONSE''] =
      (Inr ?final, [''responder''], [])"
    by blast
  from loop have "run_loop g 1 ''responder'' ?s [''RESPONSE''] = (Inr ?final, [''responder''], [])"
    unfolding One_nat_def by (rule spec)
  with h node g show ?thesis
    by (auto simp: strip_RESPONSE simp del: run_loop.simps)
qed

text \<open>
  Claim C6 (the responder's prompt). The responder sends one prompt to the model
  client. With a non-empty \<open>analysis\<close> the prompt quotes the analysis and then the query;
  with an empty one it is built from the query alone. The recording client shows the
  prompt and does not change the node's result.
\<close>

theorem responder_prompt:
  "snd (snd (responder_node (recording llm) s (c, sent))) =
     sent @
     [if analysis s \<noteq> []
      then ''Based on this analysis:\<newline>'' @ analysis s @
           ''\<newline>\<newline>Provide a clear, helpful response to the user's query: '' @ user_query s @
           ''\<newline>\<newline>Keep your response concise and practical.''
      else ''Provide a helpful response to this query: '' @ user_query s @
           ''\<newline>\<newline>Keep your response friendly and concise.''] \<and>
   fst (responder_node (recording llm) s (c, sent)) = fst (responder_node llm s c)"
  by (simp add: responder_node_def recording_def response_prompt_def
      split: prod.splits sum.splits)

subsection \<open>Whole runs\<close>

text \<open>
  Claim C7 (determinism). Against a client whose reply is a fixed function of the
  prompt, the result of a run and the nodes it invokes depend on the initial state and
  on that function only: not on the hidden state of the client at the start of the run
  (so a second run, started where the first left the client, gives the same), nor on
  how the client moves its hidden state.
\<close>

theorem run_deterministic:
  "\<exists>g1 g2.
     create_agent_graph (fixed_client reply tick1) = Inr g1 \<and>
     create_agent_graph (fixed_client reply tick2) = Inr g2 \<and>
     fst (run g1 s c1) = fst (run g2 s c2) \<and>
     fst (snd (run g1 s c1)) = fst (snd (run g2 s c2))"
proof -
  obtain g1 where g1: "create_agent_graph (fixed_client reply tick1) = Inr g1"
    by (simp add: create_agent_graph_eq)
  obtain g2 where g2: "create_agent_graph (fixed_client reply tick2) = Inr g2"
    by (simp add: create_agent_graph_eq)
  have "fst (run g1 s c1) = fst (run g2 s c2) \<and>
        fst (snd (run g1 s c1)) = fst (snd (run g2 s c2))"
    unfolding run_reference [OF g1] run_reference [OF g2]
    by (simp add: orchestrator_node_def analyzer_node_def responder_node_def fixed_client_def
        Let_def split: prod.splits sum.splits)
  with g1 g2 show ?thesis
    by blast
qed

text \<open>
  Claim C8 (end-to-end example). For the query \<open>Explain async/await\<close> and a client that
  replies \<open>technical\<close>, \<open>ANALYSIS\<close> and \<open>RESPONSE\<close> in this order, the run returns a
  final state with \<open>final_response = RESPONSE\<close> and \<open>analysis = ANALYSIS\<close>.
\<close>

theorem end_to_end_example:
  "\<exists>g final visited c'.
     create_agent_graph scripted_client = Inr g \<and>
     run_query g ''Explain async/await'' [''technical'', ''ANALYSIS'', ''RESPONSE''] =
       (Inr final, visited, c') \<and>
     final_response final = ''RESPONSE'' \<and> analysis final = ''ANALYSIS''"
proof -
  obtain g where g: "create_agent_graph scripted_client = Inr g"
    by (simp add: create_agent_graph_eq)
  from g technical_example [OF g] show ?thesis
    by simp
qed

text \<open>
  Claim C9 (the routing label is registered). Every state that the orchestrator returns
  has \<open>next_step\<close> equal to \<open>analyzer\<close> or \<open>responder\<close>; the routing function returns
  that field; the label is a key of the mapping of the orchestrator's conditional edge;
  and no run of the reference workflow fails with \<open>UnknownRoutingLabel\<close>.
\<close>

theorem routing_label_registered:
  "\<exists>g labels.
     create_agent_graph llm = Inr g \<and>
     map_of (edges g) ''orchestrator'' = Some (Conditional route_after_orchestrator labels) \<and>
     (\<forall>s c s1 c1. orchestrator_node llm s c = (Inr s1, c1) \<longrightarrow>
        (next_step s1 = ''analyzer'' \<or> next_step s1 = ''responder'') \<and>
        route_after_orchestrator s1 = next_step s1 \<and>
        map_of labels (route_after_orchestrator s1) = Some (next_step s1) \<and>
        next_node g ''orchestrator'' s1 = Inr (next_step s1)) \<and>
     (\<forall>s c l. fst (run g s c) \<noteq> Inl (UnknownRoutingLabel l))"
proof -
  obtain g where g: "create_agent_graph llm = Inr g"
    by (simp add: create_agent_graph_eq)
  let ?labels = "[(''analyzer'', ''analyzer''), (''responder'', ''responder'')]"
  have e: "map_of (edges g) ''orchestrator'' = Some (Conditional route_after_orchestrator ?labels)"
    by (rule graph_fields(6) [OF g])
  have a: "(next_step s1 = ''analyzer'' \<or> next_step s1 = ''responder'') \<and>
        route_after_orchestrator s1 = next_step s1 \<and>
        map_of ?labels (route_after_orchestrator s1) = Some (next_step s1) \<and>
        next_node g ''orchestrator'' s1 = Inr (next_step s1)"
    if "orchestrator_node llm s c = (Inr s1, c1)" for s c s1 c1
    using orchestrator_next_step [OF that]
    by (simp add: route_after_orchestrator_def next_node_def e)
  have b: "fst (run g s c) \<noteq> Inl (UnknownRoutingLabel l)" for s c l
    by (simp add: run_reference [OF g] split: prod.splits sum.splits)
  from g e a b show ?thesis
    by blast
qed

text \<open>
  The orchestrator on a reply \<open>technical\<close>.
\<close>

theorem routing_label_registered_witness:
  "\<exists>g s1 rest.
     create_agent_graph scripted_client = Inr g \<and>
     orchestrator_node scripted_client
       \<lparr>user_query = ''Explain async/await'', query_type = [], analysis = [],
        final_response = [], next_step = []\<rparr> [''technical''] = (Inr s1, rest) \<and>
     route_after_orchestrator s1 = ''analyzer'' \<and>
     next_node g ''orchestrator'' s1 = Inr ''analyzer''"
proof -
  let ?t = "\<lparr>user_query = ''Explain async/await'', query_type = [], analysis = [],
      final_response = [], next_step = []\<rparr>"
  let ?s1 = "?t\<lparr>query_type := ''technical'', next_step := ''analyzer''\<rparr>"
  have o1: "orchestrator_node scripted_client ?t [''technical''] = (Inr ?s1, [])"
    by (simp add: orchestrator_node_def strip_technical)
  from routing_label_registered [of scripted_client] obtain g labels
    where g: "create_agent_graph scripted_client = Inr g"
      and a: "\<forall>s c s1 c1. orchestrator_node scripted_client s c = (Inr s1, c1) \<longrightarrow>
        (next_step s1 = ''analyzer'' \<or> next_step s1 = ''responder'') \<and>
        route_after_orchestrator s1 = next_step s1 \<and>
        map_of labels (route_after_orchestrator s1) = Some (next_step s1) \<and>
        next_node g ''orchestrator'' s1 = Inr (next_step s1)"
    by blast
  from a o1 have "route_after_orchestrator ?s1 = next_step ?s1 \<and>
      next_node g ''orchestrator'' ?s1 = Inr (next_step ?s1)"
    by blast
  with g o1 show ?thesis
    by simp
qed

text \<open>
  Claim C10 (analysis is written only on the technical path). When a run of the
  reference workflow returns a final state whose \<open>query_type\<close> is not \<open>technical\<close>,
  the analyzer was not invoked and \<open>analysis\<close> is what it was in the initial state.
\<close>

theorem analysis_only_when_technical:
  assumes "create_agent_graph llm = Inr g"
      and "run g s c = (Inr final, visited, c')"
      and "query_type final \<noteq> ''technical''"
  shows "analysis final = analysis s \<and> ''analyzer'' \<notin> set visited"
proof (cases "orchestrator_node llm s c")
  case (Pair r1 c1)
  show ?thesis
  proof (cases r1)
    case (Inl e)
    with Pair assms(2) show ?thesis
      by (simp add: run_reference [OF assms(1)])
  next
    case (Inr s1)
    note orch = Pair [unfolded Inr]
    show ?thesis
    proof (cases "query_type s1 = ''technical''")
      case True
      with orch assms(2) obtain s2 c2 where an: "analyzer_node llm s1 c1 = (Inr s2, c2)"
        and re: "responder_node llm s2 c2 = (Inr final, c')"
        by (auto simp: run_reference [OF assms(1)] split: prod.splits sum.splits)
      from True node_keeps_query_type(1) [OF an] node_keeps_query_type(2) [OF re]
      have "query_type final = ''technical''"
        by simp
      with assms(3) show ?thesis
        by simp
    next
      case False
      with orch assms(2) have "responder_node llm s1 c1 = (Inr final, c')"
        and v: "visited = [''orchestrator'', ''responder'']"
        by (auto simp: run_reference [OF assms(1)] split: prod.splits sum.splits)
      then have "analysis final = analysis s1"
        by (simp add: node_keeps_analysis(2))
      with node_keeps_analysis(1) [OF orch] v show ?thesis
        by simp
    qed
  qed
qed

text \<open>
  The greeting: \<open>analysis\<close> is still the empty string of \<open>run_query\<close>'s initial state.
\<close>

theorem analysis_only_when_technical_witness:
  "\<exists>g final visited c'.
     create_agent_graph scripted_client = Inr g \<and>
     run_query g ''Hello! How are you today?'' [''greeting'', ''RESPONSE''] =
       (Inr final, visited, c') \<and>
     query_type final \<noteq> ''technical'' \<and> analysis final = [] \<and> ''analyzer'' \<notin> set visited"
proof -
  obtain g where g: "create_agent_graph scripted_client = Inr g"
    by (simp add: create_agent_graph_eq)
  let ?final = "\<lparr>user_query = ''Hello! How are you today?'', query_type = ''greeting'',
      analysis = [], final_response = ''RESPONSE'', next_step = ''end''\<rparr>"
  note r = greeting_example [OF g, unfolded run_query_def Let_def]
  have q: "query_type ?final \<noteq> ''technical''"
    by simp
  from analysis_only_when_technical [OF g r q] g r q show ?thesis
    by (simp add: run_query_def)
qed

end
